theory Spec2Isabelle
  imports Complex_Main
begin

section \<open>Device registry (class device-manager)\<close>

text \<open>
  A device is seen by the registry only through its virtual \<open>name()\<close>; the registry
  holds \<open>std::shared_ptr<device>\<close> values in a \<open>std::vector\<close>. A shared pointer
  handed to \<open>register_device\<close> may be null, which is \<open>None\<close> here. The field
  \<open>ident\<close> stands for the identity of the pointed-to object, so that two distinct
  objects may carry the same name.
\<close>

record device =
  ident :: nat
  name :: string

type_synonym device_manager = "device list"

text \<open>
  \<open>device_manager::register_device\<close>: a null pointer returns at once; otherwise
  \<open>std::find_if\<close> scans the vector for an element whose name compares equal under
  \<open>strcmp\<close>; a hit returns without change, a miss does \<open>push_back\<close>.
\<close>

definition register_device :: "device option \<Rightarrow> device_manager \<Rightarrow> device_manager" where
  "register_device dev devices =
     (case dev of
        None \<Rightarrow> devices
      | Some d \<Rightarrow>
          (case find (\<lambda>existing. name existing = name d) devices of
             Some it \<Rightarrow> devices
           | None \<Rightarrow> devices @ [d]))"

text \<open>A sequence of \<open>register_device\<close> calls, applied left to right.\<close>

fun register_all :: "device option list \<Rightarrow> device_manager \<Rightarrow> device_manager" where
  "register_all [] devices = devices"
| "register_all (dev # devs) devices = register_all devs (register_device dev devices)"


section \<open>Event bus\<close>

datatype event_type =
    network_connected
  | network_disconnected
  | data_received
  | battery_low
  | battery_critical
  | battery_normal
  | charging_started
  | charging_complete
  | battery_temp_high
  | battery_temp_normal
  | device_error
  | enter_deep_sleep

datatype event_data_type = none | integer | floating | boolean | string | binary

text \<open>
  \<open>struct event_data\<close>; the byte buffer behind the shared pointer is a list of
  byte values, \<open>None\<close> for a null pointer.
\<close>

record event_data =
  etype :: event_type
  data_type :: event_data_type
  data :: "nat list option"
  data_size :: nat

text \<open>
  A listener object is known by its identity. The heap is the set of listener objects
  that still have an owning \<open>shared_ptr\<close>; a \<open>weak_ptr\<close> to a listener is expired
  exactly when the listener is not in the heap. The subscriber table is
  \<open>std::map<event_type, std::vector<std::weak_ptr<event_listener>>>\<close>.
\<close>

type_synonym listener = nat
type_synonym heap = "listener set"
type_synonym event_bus = "event_type \<rightharpoonup> listener list"

text \<open>
  The delivery loop of \<open>event_bus::publish\<close>: each weak pointer is locked, and
  \<open>on_event\<close> runs only when the lock gave a non-null pointer. What a listener's
  \<open>on_event\<close> does to the owners of listeners is the parameter \<open>react\<close>; the
  listeners invoked are collected in call order.
\<close>

fun notify ::
  "(listener \<Rightarrow> event_data \<Rightarrow> heap \<Rightarrow> heap) \<Rightarrow> event_data \<Rightarrow> listener list \<Rightarrow> heap
     \<Rightarrow> listener list \<times> heap" where
  "notify react event [] h = ([], h)"
| "notify react event (wp # wps) h =
     (if wp \<in> h then
        (case notify react event wps (react wp event h) of
           (called, h') \<Rightarrow> (wp # called, h'))
      else notify react event wps h)"

text \<open>
  \<open>event_bus::publish\<close>: \<open>find\<close> on the table; no entry returns at once; otherwise the
  expired weak pointers are erased from the vector (erase and remove-if idiom, order kept)
  and the remaining ones are notified in order. The result is the table, the listeners
  invoked and the heap afterwards.
\<close>

definition publish ::
  "(listener \<Rightarrow> event_data \<Rightarrow> heap \<Rightarrow> heap) \<Rightarrow> event_data \<Rightarrow> heap \<Rightarrow> event_bus
     \<Rightarrow> event_bus \<times> listener list \<times> heap" where
  "publish react event h listeners_map =
     (case listeners_map (etype event) of
        None \<Rightarrow> (listeners_map, [], h)
      | Some listeners \<Rightarrow>
          (let listeners' = filter (\<lambda>wp. wp \<in> h) listeners
           in (case notify react event listeners' h of
                 (called, h') \<Rightarrow> (listeners_map(etype event \<mapsto> listeners'), called, h'))))"


section \<open>Power controller (pmu)\<close>



record pmu =
  is_locked :: bool
  last_unlock_time :: int
  idle_timeout :: int
  is_suspended :: bool

text \<open>Calls made on the device manager the controller refers to.\<close>

datatype dev_mgr_call = Resume_all | Suspend_all

text \<open>
  The constructor. \<open>PMU_DEFAULT_IDLE_TIMEOUT\<close> is \<open>CONFIG_POWER_SAVE_TIMEOUT\<close> of the
  generated configuration header and is the first argument here.
\<close>

definition pmu_ctor :: "int \<Rightarrow> int \<Rightarrow> int \<Rightarrow> pmu" where
  "pmu_ctor PMU_DEFAULT_IDLE_TIMEOUT now idle_timeout_seconds =
     \<lparr> is_locked = False,
       last_unlock_time = now,
       idle_timeout = (if idle_timeout_seconds = 0 then PMU_DEFAULT_IDLE_TIMEOUT
                       else idle_timeout_seconds),
       is_suspended = False \<rparr>"

definition lock :: "pmu \<Rightarrow> pmu \<times> dev_mgr_call list" where
  "lock p =
     (if \<not> is_locked p then
        (if is_suspended p then (p\<lparr> is_locked := True, is_suspended := False \<rparr>, [Resume_all])
         else (p\<lparr> is_locked := True \<rparr>, []))
      else (p, []))"

definition unlock :: "int \<Rightarrow> pmu \<Rightarrow> pmu" where
  "unlock now p =
     (if is_locked p then p\<lparr> is_locked := False, last_unlock_time := now \<rparr> else p)"


definition set_idle_timeout :: "int \<Rightarrow> int \<Rightarrow> pmu \<Rightarrow> pmu" where
  "set_idle_timeout PMU_DEFAULT_IDLE_TIMEOUT seconds p =
     (if seconds \<le> 0 then p\<lparr> idle_timeout := PMU_DEFAULT_IDLE_TIMEOUT \<rparr>
      else p\<lparr> idle_timeout := seconds \<rparr>)"

definition get_idle_timeout :: "pmu \<Rightarrow> int" where
  "get_idle_timeout p = idle_timeout p"





section \<open>Battery monitor (class battery-manager)\<close>

datatype battery_state = critical | low | normal | high | full | charging | error

datatype charging_state =
    not_charging
  | fast_charging
  | slow_charging
  | trickle_charging
  | complete
  | charging_error

text \<open>
  Single-precision floating point. A \<open>float\<close> is a finite binary32 number, an
  infinity or NaN. The finite ones are taken as the real numbers they denote; a signed
  zero is not told from zero, which no operation used here can observe.
\<close>

datatype float32 = Finite real | PlusInf | MinusInf | NaN

text \<open>Rounding to the nearest integer, a tie going to the even one.\<close>

definition round_even :: "real \<Rightarrow> int" where
  "round_even y =
     (let n = \<lfloor>y\<rfloor>; f = y - of_int n
      in if f < 1 / 2 then n else if f > 1 / 2 then n + 1 else if even n then n else n + 1)"

text \<open>
  The binary exponent of a magnitude, kept within the range of normal binary32 numbers
  (from -126 to 127): the number of halvings that bring it below 2, or of doublings that
  bring it up to 1.
\<close>

fun halvings :: "nat \<Rightarrow> real \<Rightarrow> int" where
  "halvings 0 y = 0"
| "halvings (Suc n) y = (if y < 2 then 0 else halvings n (y / 2) + 1)"

fun doublings :: "nat \<Rightarrow> real \<Rightarrow> int" where
  "doublings 0 y = 0"
| "doublings (Suc n) y = (if 1 \<le> y then 0 else doublings n (2 * y) + 1)"

definition exponent32 :: "real \<Rightarrow> int" where
  "exponent32 y =
     (if 1 \<le> \<bar>y\<bar> then halvings 127 \<bar>y\<bar> else - doublings 126 \<bar>y\<bar>)"

text \<open>
  \<open>round32\<close> is the rounding every binary32 operation and every \<open>f\<close>-suffixed
  literal applies to its exact value: to the nearest number with a 24-bit significand
  (spacing \<open>2 powi (e - 23)\<close> at exponent \<open>e\<close>), ties to even. Overflow to an
  infinity begins at \<open>2 powi 128\<close>; all the arithmetic below stays under 128.
\<close>

definition round32 :: "real \<Rightarrow> real" where
  "round32 y = (let q = 2 powi (exponent32 y - 23) in of_int (round_even (y / q)) * q)"

text \<open>The comparison \<open><=\<close> of two floats; with a NaN operand it is false.\<close>

fun float_le :: "float32 \<Rightarrow> float32 \<Rightarrow> bool" where
  "float_le NaN y = False"
| "float_le x NaN = False"
| "float_le MinusInf y = True"
| "float_le x PlusInf = True"
| "float_le PlusInf y = False"
| "float_le x MinusInf = False"
| "float_le (Finite a) (Finite b) = (a \<le> b)"

text \<open>
  What the device returns to one run of \<open>update_battery_state\<close> is a \<open>sample\<close>.
  Current and temperature only ever meet the comparisons \<open><\<close> and \<open>>\<close> against
  constants that binary32 holds exactly (-500, -100, -10, 45.0f, 55.0f); there a NaN
  behaves as a value between the thresholds does and an infinity as a value beyond
  them, so these two fields are real numbers.
\<close>

record sample =
  voltage :: float32
  current :: real
  temperature :: real
  is_charging :: bool

text \<open>The values of the literals \<open>3.0f\<close> and \<open>4.2f\<close>, and \<open>45.0f\<close> and \<open>55.0f\<close>.\<close>

definition BATTERY_MIN_VOLTAGE :: real where "BATTERY_MIN_VOLTAGE = round32 3.0"
definition BATTERY_MAX_VOLTAGE :: real where "BATTERY_MAX_VOLTAGE = round32 4.2"
definition BATTERY_TEMP_WARNING :: real where "BATTERY_TEMP_WARNING = 45.0"
definition BATTERY_TEMP_CRITICAL :: real where "BATTERY_TEMP_CRITICAL = 55.0"

text \<open>
  \<open>static_cast<int>\<close> of a finite floating value within the range of \<open>int\<close>: the
  fraction is discarded.
\<close>

definition static_cast_int :: "real \<Rightarrow> int" where
  "static_cast_int x = (if x < 0 then \<lceil>x\<rceil> else \<lfloor>x\<rfloor>)"

text \<open>
  \<open>battery_manager::calculate_percentage\<close>. A voltage that fails both comparisons is
  a finite value strictly between the bounds or NaN. For the finite value the
  subtraction, the multiplication by \<open>100.0f\<close> and the division by the difference of
  the bounds are binary32 operations, each rounding its exact result. For NaN the
  arithmetic gives NaN, whose conversion to \<open>int\<close> C++ leaves undefined: the value
  the target produces is the parameter \<open>nan_cast\<close>.
\<close>

definition calculate_percentage :: "int \<Rightarrow> float32 \<Rightarrow> int" where
  "calculate_percentage nan_cast v =
     (if float_le v (Finite BATTERY_MIN_VOLTAGE) then 0
      else if float_le (Finite BATTERY_MAX_VOLTAGE) v then 100
      else (case v of
              Finite x \<Rightarrow>
                static_cast_int
                  (round32 (round32 (round32 (x - BATTERY_MIN_VOLTAGE) * 100.0) /
                            round32 (BATTERY_MAX_VOLTAGE - BATTERY_MIN_VOLTAGE)))
            | PlusInf \<Rightarrow> nan_cast
            | MinusInf \<Rightarrow> nan_cast
            | NaN \<Rightarrow> nan_cast))"

record battery_manager =
  current_state :: battery_state
  charging_state :: charging_state
  charge_percentage :: int
  low_battery_threshold :: int
  critical_battery_threshold :: int
  last_voltage :: float32
  last_current :: real
  last_temperature :: real
  temp_warning_active :: bool

text \<open>
  What one operation of the manager does to the outside, in the order it does it: calls
  of \<open>disable_charging\<close> and \<open>enable_charging\<close> on the battery device, and events
  handed to \<open>event_bus::publish\<close>.
\<close>

datatype action = Disable_charging | Enable_charging | Publish event_type

text \<open>
  The constructor; the two thresholds are \<open>CONFIG_BATTERY_LOW_THRESHOLD\<close> and
  \<open>CONFIG_BATTERY_CRITICAL_THRESHOLD\<close> of the generated configuration header.
\<close>

definition battery_manager_ctor :: "int \<Rightarrow> int \<Rightarrow> battery_manager" where
  "battery_manager_ctor BATTERY_DEFAULT_LOW_THRESHOLD BATTERY_DEFAULT_CRITICAL_THRESHOLD =
     \<lparr> current_state = normal,
       charging_state = not_charging,
       charge_percentage = 50,
       low_battery_threshold = BATTERY_DEFAULT_LOW_THRESHOLD,
       critical_battery_threshold = BATTERY_DEFAULT_CRITICAL_THRESHOLD,
       last_voltage = Finite 0.0,
       last_current = 0.0,
       last_temperature = 25.0,
       temp_warning_active = False \<rparr>"

definition set_low_battery_threshold :: "int \<Rightarrow> battery_manager \<Rightarrow> battery_manager" where
  "set_low_battery_threshold percentage m =
     (if percentage < 5 \<or> percentage > 50 then m
      else m\<lparr> low_battery_threshold := percentage \<rparr>)"

definition set_critical_battery_threshold :: "int \<Rightarrow> battery_manager \<Rightarrow> battery_manager" where
  "set_critical_battery_threshold percentage m =
     (if percentage < 1 \<or> percentage > 20 then m
      else m\<lparr> critical_battery_threshold := percentage \<rparr>)"

text \<open>The three decision chains of \<open>update_battery_state\<close>, in the source's order.\<close>

definition update_charging_state :: "bool \<Rightarrow> real \<Rightarrow> int \<Rightarrow> charging_state" where
  "update_charging_state is_chg cur percentage =
     (if is_chg then
        (if cur < - 500 then fast_charging
         else if cur < - 100 then slow_charging
         else if cur < - 10 then trickle_charging
         else if percentage \<ge> 100 then complete
         else charging_error)
      else not_charging)"

definition check_temperature :: "real \<Rightarrow> bool \<Rightarrow> bool \<times> action list" where
  "check_temperature temp active =
     (if temp > BATTERY_TEMP_CRITICAL then
        (True, Disable_charging # (if \<not> active then [Publish battery_temp_high] else []))
      else if temp < BATTERY_TEMP_WARNING \<and> active then
        (False, [Enable_charging, Publish battery_temp_normal])
      else (active, []))"

definition update_state :: "bool \<Rightarrow> int \<Rightarrow> int \<Rightarrow> int \<Rightarrow> battery_state" where
  "update_state is_chg percentage critical_threshold low_threshold =
     (if is_chg then charging
      else if percentage \<le> critical_threshold then critical
      else if percentage \<le> low_threshold then low
      else if percentage > 80 then high
      else if percentage \<ge> 100 then full
      else normal)"

text \<open>The \<open>switch\<close> choosing the event of a state change; \<open>default\<close> returns.\<close>

fun state_change_event :: "battery_state \<Rightarrow> event_type option" where
  "state_change_event low = Some battery_low"
| "state_change_event critical = Some battery_critical"
| "state_change_event normal = Some battery_normal"
| "state_change_event high = Some battery_normal"
| "state_change_event full = Some battery_normal"
| "state_change_event charging = Some charging_started"
| "state_change_event error = None"

text \<open>
  \<open>battery_manager::update_battery_state\<close>. The first argument is what locking the
  weak device pointer gives: \<open>None\<close> when the device is gone (the function returns at
  once), otherwise the sample read from the device. The parameter \<open>nan_cast\<close> is
  the one of \<open>calculate_percentage\<close>.
\<close>

definition update_battery_state ::
  "int \<Rightarrow> sample option \<Rightarrow> battery_manager \<Rightarrow> battery_manager \<times> action list" where
  "update_battery_state nan_cast device m =
     (case device of
        None \<Rightarrow> (m, [])
      | Some s \<Rightarrow>
          (let percentage = calculate_percentage nan_cast (voltage s);
               chg = update_charging_state (is_charging s) (current s) percentage;
               thermal = check_temperature (temperature s) (temp_warning_active m);
               prev_state = current_state m;
               new_state = update_state (is_charging s) percentage
                             (critical_battery_threshold m) (low_battery_threshold m);
               m' = m\<lparr> last_voltage := voltage s,
                        last_current := current s,
                        last_temperature := temperature s,
                        charge_percentage := percentage,
                        charging_state := chg,
                        temp_warning_active := fst thermal,
                        current_state := new_state \<rparr>
           in (m', snd thermal @
                   (if prev_state \<noteq> new_state then
                      (case state_change_event new_state of
                         Some evt_type \<Rightarrow> [Publish evt_type]
                       | None \<Rightarrow> [])
                    else []))))"

text \<open>
  \<open>battery_manager::on_event\<close>; \<open>device_present\<close> tells whether the weak device
  pointer can still be locked when \<open>disable_charging()\<close> runs.
\<close>

definition on_event :: "event_type \<Rightarrow> bool \<Rightarrow> battery_manager \<Rightarrow> battery_manager \<times> action list" where
  "on_event ev device_present m =
     (if ev = enter_deep_sleep \<and> device_present then (m, [Disable_charging]) else (m, []))"

text \<open>Successive polls: the state published and the actions of each poll.\<close>

fun run_ticks ::
  "int \<Rightarrow> sample list \<Rightarrow> battery_manager \<Rightarrow> (battery_state \<times> action list) list" where
  "run_ticks nan_cast [] m = []"
| "run_ticks nan_cast (s # ss) m =
     (case update_battery_state nan_cast (Some s) m of
        (m', acts) \<Rightarrow> (current_state m', acts) # run_ticks nan_cast ss m')"

text \<open>The same polls, with all actions in one sequence and the final manager.\<close>

fun run_polls ::
  "int \<Rightarrow> sample list \<Rightarrow> battery_manager \<Rightarrow> battery_manager \<times> action list" where
  "run_polls nan_cast [] m = (m, [])"
| "run_polls nan_cast (s # ss) m =
     (case update_battery_state nan_cast (Some s) m of
        (m', acts) \<Rightarrow>
          (case run_polls nan_cast ss m' of (m'', acts') \<Rightarrow> (m'', acts @ acts')))"

text \<open>Everything that can happen to a manager after construction.\<close>

datatype manager_call =
    Tick "sample option"
  | Event event_type bool
  | Set_low int
  | Set_critical int

fun manager_step :: "int \<Rightarrow> manager_call \<Rightarrow> battery_manager \<Rightarrow> battery_manager" where
  "manager_step nan_cast (Tick device) m = fst (update_battery_state nan_cast device m)"
| "manager_step nan_cast (Event ev device_present) m = fst (on_event ev device_present m)"
| "manager_step nan_cast (Set_low percentage) m = set_low_battery_threshold percentage m"
| "manager_step nan_cast (Set_critical percentage) m =
     set_critical_battery_threshold percentage m"

fun manager_run :: "int \<Rightarrow> manager_call list \<Rightarrow> battery_manager \<Rightarrow> battery_manager" where
  "manager_run nan_cast [] m = m"
| "manager_run nan_cast (c # cs) m = manager_run nan_cast cs (manager_step nan_cast c m)"

definition get_battery_state :: "battery_manager \<Rightarrow> battery_state" where
  "get_battery_state m = current_state m"


section \<open>Notions the properties are stated with\<close>

text \<open>
  The specification's formula for the charge percentage: the linear map of the voltage
  between the empty bound 3.0 V and the full bound 4.2 V, clamped to the range from 0
  to 100, in exact arithmetic.
\<close>

definition linear_map_clamped :: "real \<Rightarrow> real" where
  "linear_map_clamped v = max 0 (min 100 ((v - 3.0) * 100 / (4.2 - 3.0)))"

text \<open>
  \<open>strictly_before a b xs\<close>: both occur in \<open>xs\<close> and the first \<open>a\<close> comes before
  the first \<open>b\<close>.
\<close>

fun strictly_before :: "'a \<Rightarrow> 'a \<Rightarrow> 'a list \<Rightarrow> bool" where
  "strictly_before a b [] = False"
| "strictly_before a b (x # xs) =
     (if x = b then False else if x = a then b \<in> set xs else strictly_before a b xs)"


section \<open>The device registry keeps names unique\<close>

lemma find_name_None: "(find (\<lambda>e. name e = n) ds = None) = (n \<notin> set (map name ds))"
  by (induction ds) auto

lemma register_device_cases:
  "register_device None ds = ds"
  "name d \<in> set (map name ds) \<Longrightarrow> register_device (Some d) ds = ds"
  "name d \<notin> set (map name ds) \<Longrightarrow> register_device (Some d) ds = ds @ [d]"
  by (auto simp: register_device_def find_name_None split: option.splits)

lemma register_device_distinct:
  "distinct (map name ds) \<Longrightarrow> distinct (map name (register_device dev ds))"
  by (auto simp: register_device_def find_name_None split: option.splits)

lemma register_all_distinct:
  "distinct (map name ds) \<Longrightarrow> distinct (map name (register_all devs ds))"
  by (induction devs arbitrary: ds) (simp_all add: register_device_distinct)

text \<open>
  C4. After any sequence of \<open>register_device\<close> calls on a fresh registry no two
  registered devices have equal names. A call with a null pointer, or with a device
  whose name is already registered, leaves the registry as it was; any other call
  appends the device.
\<close>

theorem register_device_unique_names:
  "distinct (map name (register_all devs []))
   \<and> register_device None ds = ds
   \<and> (name d \<in> set (map name ds) \<longrightarrow> register_device (Some d) ds = ds)
   \<and> (name d \<notin> set (map name ds) \<longrightarrow> register_device (Some d) ds = ds @ [d])"
  using register_all_distinct [of "[]" devs] by (simp add: register_device_cases)

theorem register_device_unique_names_witness:
  "register_all [Some \<lparr>ident = 1, name = ''A''\<rparr>, None, Some \<lparr>ident = 2, name = ''A''\<rparr>,
                 Some \<lparr>ident = 3, name = ''B''\<rparr>] []
     = [\<lparr>ident = 1, name = ''A''\<rparr>, \<lparr>ident = 3, name = ''B''\<rparr>]
   \<and> distinct (map name (register_all [Some \<lparr>ident = 1, name = ''A''\<rparr>, None,
         Some \<lparr>ident = 2, name = ''A''\<rparr>, Some \<lparr>ident = 3, name = ''B''\<rparr>] []))
   \<and> name \<lparr>ident = 2, name = ''A''\<rparr> \<in> set (map name [\<lparr>ident = 1, name = ''A''\<rparr>])
   \<and> register_device (Some \<lparr>ident = 2, name = ''A''\<rparr>) [\<lparr>ident = 1, name = ''A''\<rparr>]
       = [\<lparr>ident = 1, name = ''A''\<rparr>]"
  using register_device_unique_names
    [of "[Some \<lparr>ident = 1, name = ''A''\<rparr>, None, Some \<lparr>ident = 2, name = ''A''\<rparr>,
          Some \<lparr>ident = 3, name = ''B''\<rparr>]" "[\<lparr>ident = 1, name = ''A''\<rparr>]"
        "\<lparr>ident = 2, name = ''A''\<rparr>"]
  by (simp add: register_device_def)


section \<open>The event bus\<close>

lemma notify_called_subset:
  "notify react event wps h = (called, h') \<Longrightarrow> set called \<subseteq> set wps"
proof (induction wps arbitrary: h called h')
  case Nil
  then show ?case by simp
next
  case (Cons wp wps)
  show ?case
  proof (cases "wp \<in> h")
    case True
    obtain c g where n: "notify react event wps (react wp event h) = (c, g)"
      by (cases "notify react event wps (react wp event h)")
    with Cons.prems True have "called = wp # c" by simp
    with Cons.IH [OF n] show ?thesis by auto
  next
    case False
    with Cons.prems have "notify react event wps h = (called, h')" by simp
    from Cons.IH [OF this] show ?thesis by auto
  qed
qed

lemma notify_unchanged_heap:
  "(\<And>l g. react l event g = g) \<Longrightarrow>
     notify react event wps h = (filter (\<lambda>wp. wp \<in> h) wps, h)"
  by (induction wps arbitrary: h) simp_all

text \<open>
  C6. Whatever the event, the heap and the subscriber table, \<open>publish\<close> invokes only
  listeners that still had an owner when the publish began: every listener invoked is in
  the heap of that moment, the expired subscriptions of the event's type are erased from
  the table before delivery, and the survivors are invoked in subscription order when
  the listeners release nobody. For an event type without an entry the publish returns
  with the table unchanged and nobody invoked; \<open>publish\<close> has a result for every input.
\<close>

theorem publish_skips_released:
  assumes "publish react event h bus = (bus', called, h')"
  shows "set called \<subseteq> h
         \<and> (bus (etype event) = None \<longrightarrow> bus' = bus \<and> called = [] \<and> h' = h)
         \<and> (\<forall>ls. bus (etype event) = Some ls \<longrightarrow>
               bus' = bus(etype event \<mapsto> filter (\<lambda>wp. wp \<in> h) ls)
               \<and> set called \<subseteq> set ls
               \<and> ((\<forall>l g. react l event g = g) \<longrightarrow> called = filter (\<lambda>wp. wp \<in> h) ls))"
proof (cases "bus (etype event)")
  case None
  with assms show ?thesis by (simp add: publish_def)
next
  case (Some ls)
  let ?live = "filter (\<lambda>wp. wp \<in> h) ls"
  from assms Some have b: "bus' = bus(etype event \<mapsto> ?live)"
    and c: "notify react event ?live h = (called, h')"
    by (auto simp: publish_def Let_def split: prod.splits)
  from notify_called_subset [OF c] have sub: "set called \<subseteq> set ?live" .
  have "(\<forall>l g. react l event g = g) \<longrightarrow> called = ?live"
  proof
    assume "\<forall>l g. react l event g = g"
    then have "notify react event ?live h = (filter (\<lambda>wp. wp \<in> h) ?live, h)"
      by (intro notify_unchanged_heap) simp
    with c show "called = ?live" by auto
  qed
  with b sub Some show ?thesis by auto
qed

theorem publish_skips_released_witness:
  "fst (snd (publish (\<lambda>l e g. g - {3})
       \<lparr>etype = battery_low, data_type = none, data = None, data_size = 0\<rparr>
       {1, 3, 4} (Map.empty(battery_low \<mapsto> [1, 2, 3, 4])))) = [1, 4]
   \<and> set (fst (snd (publish (\<lambda>l e g. g - {3})
       \<lparr>etype = battery_low, data_type = none, data = None, data_size = 0\<rparr>
       {1, 3, 4} (Map.empty(battery_low \<mapsto> [1, 2, 3, 4]))))) \<subseteq> {1, 3, 4}
   \<and> fst (publish (\<lambda>l e g. g - {3})
       \<lparr>etype = battery_low, data_type = none, data = None, data_size = 0\<rparr>
       {1, 3, 4} (Map.empty(battery_low \<mapsto> [1, 2, 3, 4]))) battery_low = Some [1, 3, 4]"
proof -
  let ?r = "publish (\<lambda>l e g. g - {3})
       \<lparr>etype = battery_low, data_type = none, data = None, data_size = 0\<rparr>
       {1, 3, 4} (Map.empty(battery_low \<mapsto> [1, 2, 3, 4]))"
  have e: "?r = (fst ?r, fst (snd ?r), snd (snd ?r))" by simp
  from publish_skips_released [OF e] show ?thesis
    by (simp add: publish_def Let_def)
qed



section \<open>The power controller\<close>







text \<open>
  C7, as the claim states it, fails: \<open>unlock()\<close> at second 20 on a controller that is
  already unlocked (built at time 0) does not record second 20 as the idle-window start.
\<close>

theorem unlock_records_time_counterexample:
  "last_unlock_time (unlock 20000000000 (pmu_ctor 30 0 30)) \<noteq> 20000000000"
  by (simp add: unlock_def pmu_ctor_def)

text \<open>
  C7, amended. Every call of \<open>unlock()\<close> leaves \<open>is_locked()\<close> false, and a second call
  changes nothing more. The time of the call becomes the idle-window start when the
  controller was locked; a call on an unlocked controller leaves the whole state, the
  idle-window start included, as it was.
\<close>

theorem unlock_effect:
  "\<not> is_locked (unlock now p)
   \<and> unlock now' (unlock now p) = unlock now p
   \<and> (is_locked p \<longrightarrow> last_unlock_time (unlock now p) = now)
   \<and> (\<not> is_locked p \<longrightarrow> unlock now p = p)"
  by (simp add: unlock_def)

theorem unlock_effect_witness:
  "is_locked (fst (lock (pmu_ctor 30 0 30)))
   \<and> last_unlock_time (unlock 7 (fst (lock (pmu_ctor 30 0 30)))) = 7
   \<and> \<not> is_locked (pmu_ctor 30 0 30)
   \<and> unlock 7 (pmu_ctor 30 0 30) = pmu_ctor 30 0 30"
  using unlock_effect [of 7 "fst (lock (pmu_ctor 30 0 30))" 7]
        unlock_effect [of 7 "pmu_ctor 30 0 30" 7]
  by (simp add: lock_def pmu_ctor_def)

text \<open>
  C10. A controller constructed with \<open>idle_timeout_seconds = 0\<close> reports the
  configured default timeout, and \<open>set_idle_timeout(s)\<close> with \<open>s \<le> 0\<close> sets the timeout
  to that default, whatever it was before.
\<close>

theorem idle_timeout_default:
  "get_idle_timeout (pmu_ctor dflt now 0) = dflt
   \<and> (s \<le> 0 \<longrightarrow> get_idle_timeout (set_idle_timeout dflt s p) = dflt)"
  by (simp add: get_idle_timeout_def pmu_ctor_def set_idle_timeout_def)

theorem idle_timeout_default_witness:
  "(- 5 :: int) \<le> 0
   \<and> get_idle_timeout (pmu_ctor 30 0 0) = 30
   \<and> get_idle_timeout (set_idle_timeout 30 (- 5) (pmu_ctor 30 0 12)) = 30"
  using idle_timeout_default [of 30 0 "- 5" "pmu_ctor 30 0 12"] by simp


section \<open>The battery monitor\<close>

subsection \<open>Single-precision rounding\<close>

lemma round_even_error: "\<bar>of_int (round_even z) - z\<bar> \<le> 1 / 2"
proof -
  have "of_int \<lfloor>z\<rfloor> \<le> z" "z < of_int \<lfloor>z\<rfloor> + 1" by linarith+
  then show ?thesis by (auto simp: round_even_def Let_def)
qed

lemma round_even_nonneg: "0 \<le> z \<Longrightarrow> 0 \<le> round_even z"
  by (auto simp: round_even_def Let_def)

lemma halvings_le: "y < 2 ^ Suc j \<Longrightarrow> halvings n y \<le> int j"
proof (induction n arbitrary: y j)
  case 0
  then show ?case by simp
next
  case (Suc n)
  show ?case
  proof (cases "y < 2")
    case True
    then show ?thesis by simp
  next
    case False
    with Suc.prems obtain i where j: "j = Suc i" by (cases j) auto
    with Suc.prems have "y / 2 < 2 ^ Suc i" by simp
    from Suc.IH [OF this] False j show ?thesis by simp
  qed
qed

lemma doublings_nonneg: "0 \<le> doublings n y"
  by (induction n arbitrary: y) auto

lemma exponent32_le: "\<bar>y\<bar> < 2 ^ Suc j \<Longrightarrow> exponent32 y \<le> int j"
  using halvings_le [of "\<bar>y\<bar>" j 127] doublings_nonneg [of 126 "\<bar>y\<bar>"]
  by (auto simp: exponent32_def)

lemma round32_error:
  assumes "\<bar>y\<bar> < 2 ^ Suc j"
  shows "\<bar>round32 y - y\<bar> \<le> 2 powi (int j - 24)"
proof -
  define q :: real where "q = 2 powi (exponent32 y - 23)"
  have q: "0 < q" by (simp add: q_def)
  have "exponent32 y - 23 \<le> int j - 23" using exponent32_le [OF assms] by simp
  then have "q \<le> 2 powi (int j - 23)" unfolding q_def by (intro power_int_increasing) simp_all
  also have "\<dots> = 2 * 2 powi (int j - 24)"
    using power_int_add [of "2::real" 1 "int j - 24"] by simp
  finally have qle: "q / 2 \<le> 2 powi (int j - 24)" by simp
  have "round32 y - y = q * (of_int (round_even (y / q)) - y / q)"
    using q by (simp add: round32_def q_def Let_def field_simps)
  then have "\<bar>round32 y - y\<bar> = q * \<bar>of_int (round_even (y / q)) - y / q\<bar>"
    using q by (simp add: abs_mult)
  also have "\<dots> \<le> q * (1 / 2)"
    using round_even_error [of "y / q"] q by (intro mult_left_mono) simp_all
  finally show ?thesis using qle by simp
qed

lemma round32_nonneg: "0 \<le> y \<Longrightarrow> 0 \<le> round32 y"
  using round_even_nonneg [of "y / 2 powi (exponent32 y - 23)"]
  by (simp add: round32_def Let_def)

lemma round32_error_below_2: "\<bar>y\<bar> < 2 \<Longrightarrow> \<bar>round32 y - y\<bar> \<le> 1 / 16777216"
  using round32_error [of y 0] by (simp add: power_int_minus)

lemma round32_error_below_128: "\<bar>y\<bar> < 128 \<Longrightarrow> \<bar>round32 y - y\<bar> \<le> 1 / 262144"
  using round32_error [of y 6] by (simp add: power_int_minus)

lemma min_voltage_value: "BATTERY_MIN_VOLTAGE = 3"
  unfolding BATTERY_MIN_VOLTAGE_def by code_simp

lemma max_voltage_value: "BATTERY_MAX_VOLTAGE = 4404019 / 1048576"
  unfolding BATTERY_MAX_VOLTAGE_def by code_simp

lemma voltage_span_value: "round32 (BATTERY_MAX_VOLTAGE - BATTERY_MIN_VOLTAGE) = 1258291 / 1048576"
  unfolding BATTERY_MIN_VOLTAGE_def BATTERY_MAX_VOLTAGE_def by code_simp

subsection \<open>Charge percentage\<close>

lemma static_cast_int_nonneg:
  "0 \<le> x \<Longrightarrow> 0 \<le> static_cast_int x \<and> of_int (static_cast_int x) \<le> x
               \<and> x - 1 < of_int (static_cast_int x)"
  unfolding static_cast_int_def by (simp; linarith)

lemma percentage_between_bounds:
  assumes "BATTERY_MIN_VOLTAGE < x" and "x < BATTERY_MAX_VOLTAGE"
  defines "r \<equiv> round32 (round32 (round32 (x - BATTERY_MIN_VOLTAGE) * 100) /
                         round32 (BATTERY_MAX_VOLTAGE - BATTERY_MIN_VOLTAGE))"
  shows "0 \<le> r" and "\<bar>r - (x - 3) * 100 / (12 / 10)\<bar> < 1 / 32768"
proof -
  define a where "a = x - 3"
  define x1 where "x1 = round32 a"
  define x2 where "x2 = round32 (x1 * 100)"
  define x3 where "x3 = round32 (x2 * (1048576 / 1258291))"
  from assms(1,2) have a: "0 < a" "a < 1258291 / 1048576"
    by (simp_all add: a_def min_voltage_value max_voltage_value)
  have r: "r = x3"
    unfolding r_def voltage_span_value
    by (simp add: x3_def x2_def x1_def a_def min_voltage_value)
  from a have "\<bar>a\<bar> < 2" by simp
  from round32_error_below_2 [OF this] have e1: "\<bar>x1 - a\<bar> \<le> 1 / 16777216"
    by (simp add: x1_def)
  from a have n1: "0 \<le> x1" unfolding x1_def by (intro round32_nonneg) simp
  from a e1 n1 have "\<bar>x1 * 100\<bar> < 128" by (simp add: abs_if split: if_splits)
  from round32_error_below_128 [OF this] have e2: "\<bar>x2 - x1 * 100\<bar> \<le> 1 / 262144"
    by (simp add: x2_def)
  from n1 have n2: "0 \<le> x2" unfolding x2_def by (intro round32_nonneg) simp
  from a e1 e2 n2 have "\<bar>x2 * (1048576 / 1258291)\<bar> < 128"
    by (simp add: abs_if split: if_splits)
  from round32_error_below_128 [OF this]
  have e3: "\<bar>x3 - x2 * (1048576 / 1258291)\<bar> \<le> 1 / 262144"
    by (simp add: x3_def)
  from n2 have n3: "0 \<le> x3" unfolding x3_def by (intro round32_nonneg) simp
  from n3 r show "0 \<le> r" by simp
  from a e1 e2 e3 have "\<bar>x3 - a * 100 / (12 / 10)\<bar> < 1 / 32768"
    by (simp add: abs_if split: if_splits)
  with r show "\<bar>r - (x - 3) * 100 / (12 / 10)\<bar> < 1 / 32768" by (simp add: a_def)
qed

text \<open>
  C8, as the claim states it, fails: at 3.006f the function gives 0 and the linear map
  about one half; at 4.2f the function gives 100 and the linear map between 3.0 V and
  4.2 V a little less.
\<close>

theorem calculate_percentage_counterexample:
  "real_of_int (calculate_percentage 0 (Finite (round32 3.006)))
     \<noteq> linear_map_clamped (round32 3.006)
   \<and> real_of_int (calculate_percentage 0 (Finite (round32 4.2)))
     \<noteq> linear_map_clamped (round32 4.2)"
  by code_simp

text \<open>
  C8, amended. For every voltage that is a number, \<open>calculate_percentage\<close> is an
  integer from 0 to 100 that is the linear map of the voltage between the empty bound
  (3.0 V to 0) and the full bound (4.2 V to 100), clamped to the range from 0 to 100,
  up to the discarded fraction and the rounding of single precision: it is less than
  that value plus \<open>1 / 32768\<close> and more than that value minus 1 minus
  \<open>1 / 32768\<close>. A voltage at or below the empty bound gives 0; one at or above the
  full bound, which the code holds as 4.2f, gives 100. For NaN the result is whatever
  the conversion of NaN to \<open>int\<close> gives.
\<close>

theorem calculate_percentage_rounded_linear_map:
  "0 \<le> calculate_percentage nan_cast (Finite v)
   \<and> calculate_percentage nan_cast (Finite v) \<le> 100
   \<and> real_of_int (calculate_percentage nan_cast (Finite v)) < linear_map_clamped v + 1 / 32768
   \<and> linear_map_clamped v - 1 - 1 / 32768 < real_of_int (calculate_percentage nan_cast (Finite v))
   \<and> (v \<le> 3.0 \<longrightarrow> calculate_percentage nan_cast (Finite v) = 0)
   \<and> (v \<ge> 4.2 \<longrightarrow> calculate_percentage nan_cast (Finite v) = 100)
   \<and> (v \<ge> BATTERY_MAX_VOLTAGE \<longrightarrow> calculate_percentage nan_cast (Finite v) = 100)
   \<and> calculate_percentage nan_cast MinusInf = 0
   \<and> calculate_percentage nan_cast PlusInf = 100
   \<and> calculate_percentage nan_cast NaN = nan_cast"
proof -
  have special: "calculate_percentage nan_cast MinusInf = 0"
    "calculate_percentage nan_cast PlusInf = 100" "calculate_percentage nan_cast NaN = nan_cast"
    by (simp_all add: calculate_percentage_def)
  consider (lo) "v \<le> 3" | (mid) "3 < v" "v < BATTERY_MAX_VOLTAGE" | (hi) "BATTERY_MAX_VOLTAGE \<le> v"
    by linarith
  then show ?thesis
  proof cases
    case lo
    then have c: "calculate_percentage nan_cast (Finite v) = 0"
      by (simp add: calculate_percentage_def min_voltage_value)
    from lo have "linear_map_clamped v = 0" by (simp add: linear_map_clamped_def)
    with c lo special show ?thesis by (simp add: max_voltage_value)
  next
    case hi
    then have v: "4404019 / 1048576 \<le> v" by (simp add: max_voltage_value)
    from hi v have c: "calculate_percentage nan_cast (Finite v) = 100"
      by (simp add: calculate_percentage_def min_voltage_value)
    define L where "L = (v - 3) * 100 / (12 / 10)"
    from v have "3 \<le> v" by simp
    from v have "(4404019 / 1048576 - 3) * 100 / (12 / 10) \<le> L"
      unfolding L_def by (intro divide_right_mono mult_right_mono) simp_all
    then have g: "100 - 1 / 32768 < L" by simp
    have "linear_map_clamped v = min 100 L"
      using \<open>3 \<le> v\<close> by (simp add: linear_map_clamped_def max_def min_def L_def)
    with g have "99 < linear_map_clamped v + 1 / 32768" "linear_map_clamped v \<le> 100"
      "100 < linear_map_clamped v + 1 / 32768"
      by linarith+
    with c v special show ?thesis by simp
  next
    case mid
    define r where "r = round32 (round32 (round32 (v - BATTERY_MIN_VOLTAGE) * 100) /
                         round32 (BATTERY_MAX_VOLTAGE - BATTERY_MIN_VOLTAGE))"
    from mid have m: "BATTERY_MIN_VOLTAGE < v" by (simp add: min_voltage_value)
    from percentage_between_bounds [OF m mid(2)]
    have r: "0 \<le> r" "\<bar>r - (v - 3) * 100 / (12 / 10)\<bar> < 1 / 32768"
      by (simp_all add: r_def)
    from mid have v: "3 < v" "v < 42 / 10" by (simp_all add: max_voltage_value)
    then have l: "linear_map_clamped v = (v - 3) * 100 / (12 / 10)"
      by (simp add: linear_map_clamped_def min_def max_def)
    from v have "(v - 3) * 100 / (12 / 10) < 100" by simp
    with l have l100: "linear_map_clamped v < 100" by simp
    from mid m have c: "calculate_percentage nan_cast (Finite v) = static_cast_int r"
      by (simp add: calculate_percentage_def r_def)
    from static_cast_int_nonneg [OF r(1)]
    have s: "0 \<le> static_cast_int r" "of_int (static_cast_int r) \<le> r"
      "r - 1 < of_int (static_cast_int r)" by simp_all
    from r(2) have "\<bar>r - linear_map_clamped v\<bar> < 1 / 32768" unfolding l .
    then have rl: "r < linear_map_clamped v + 1 / 32768"
      "linear_map_clamped v - 1 / 32768 < r" by linarith+
    from s rl l100 have "of_int (static_cast_int r) < (101 :: real)" by linarith
    then have le: "static_cast_int r \<le> 100" by linarith
    from s rl have "real_of_int (static_cast_int r) < linear_map_clamped v + 1 / 32768"
      "linear_map_clamped v - 1 - 1 / 32768 < real_of_int (static_cast_int r)" by linarith+
    with c s le v mid special show ?thesis by simp
  qed
qed

theorem calculate_percentage_rounded_linear_map_witness:
  "calculate_percentage 0 (Finite (round32 3.7)) = 58
   \<and> real_of_int (calculate_percentage 0 (Finite (round32 3.7)))
        < linear_map_clamped (round32 3.7) + 1 / 32768
   \<and> linear_map_clamped (round32 3.7) - 1 - 1 / 32768
        < real_of_int (calculate_percentage 0 (Finite (round32 3.7)))
   \<and> calculate_percentage 2147483647 NaN = 2147483647"
proof -
  have e: "calculate_percentage 0 (Finite (round32 3.7)) = 58" by code_simp
  from calculate_percentage_rounded_linear_map [of 0 "round32 3.7"]
    calculate_percentage_rounded_linear_map [of 2147483647 0] e
  show ?thesis by simp
qed


subsection \<open>Battery state\<close>

lemma update_state_never_full: "update_state c p cr lo \<noteq> full"
  by (simp add: update_state_def)

text \<open>
  C1. With thresholds 20 and 10, not charging, voltages whose percentages are 5, 15, 25,
  85 and 100 give the states critical, low, normal, high and again high, not full: the
  test for more than 80 percent comes before the test for 100 percent. The fifth poll
  leaves the state unchanged and publishes nothing, so four events are published.
\<close>

theorem full_charge_reported_high:
  "map (calculate_percentage 0)
     [Finite (round32 3.07), Finite (round32 3.19), Finite (round32 3.31),
      Finite (round32 4.03), Finite (round32 4.2)] = [5, 15, 25, 85, 100]
   \<and> run_ticks 0
     [\<lparr> voltage = Finite (round32 3.07), current = 100, temperature = 25, is_charging = False \<rparr>,
      \<lparr> voltage = Finite (round32 3.19), current = 100, temperature = 25, is_charging = False \<rparr>,
      \<lparr> voltage = Finite (round32 3.31), current = 100, temperature = 25, is_charging = False \<rparr>,
      \<lparr> voltage = Finite (round32 4.03), current = 100, temperature = 25, is_charging = False \<rparr>,
      \<lparr> voltage = Finite (round32 4.2), current = 100, temperature = 25, is_charging = False \<rparr>]
     (battery_manager_ctor 20 10)
   = [(critical, [Publish battery_critical]), (low, [Publish battery_low]),
      (normal, [Publish battery_normal]), (high, [Publish battery_normal]), (high, [])]"
  by code_simp

lemma update_state_not_error: "update_state c p cr lo \<noteq> error"
  by (simp add: update_state_def)

lemma manager_step_not_error:
  "current_state m \<noteq> error \<Longrightarrow> current_state (manager_step nan_cast c m) \<noteq> error"
  by (cases c)
     (simp_all add: update_battery_state_def on_event_def set_low_battery_threshold_def
        set_critical_battery_threshold_def update_state_not_error Let_def split: option.splits)

lemma manager_run_not_error:
  "current_state m \<noteq> error \<Longrightarrow> current_state (manager_run nan_cast cs m) \<noteq> error"
  by (induction cs arbitrary: m) (simp_all add: manager_step_not_error)

text \<open>
  C9. From the constructed manager, after any sequence of polls (with or without a
  device, whatever the samples, NaN included), received events and threshold settings,
  \<open>get_battery_state\<close> is one of charging, critical, low, high, full and normal,
  never error.
\<close>

theorem battery_state_never_error:
  "get_battery_state (manager_run nan_cast cs (battery_manager_ctor lo cr)) \<noteq> error
   \<and> get_battery_state (manager_run nan_cast cs (battery_manager_ctor lo cr))
        \<in> {charging, critical, low, high, full, normal}"
proof -
  have "current_state (manager_run nan_cast cs (battery_manager_ctor lo cr)) \<noteq> error"
    by (rule manager_run_not_error) (simp add: battery_manager_ctor_def)
  then show ?thesis
    by (cases "current_state (manager_run nan_cast cs (battery_manager_ctor lo cr))")
       (simp_all add: get_battery_state_def)
qed

theorem battery_state_never_error_witness:
  "get_battery_state (manager_run 2147483647
       [Tick (Some \<lparr>voltage = Finite (round32 3.07), current = 100, temperature = 60,
                    is_charging = False\<rparr>),
        Event enter_deep_sleep True, Set_low 30, Tick None,
        Tick (Some \<lparr>voltage = NaN, current = 100, temperature = 20, is_charging = False\<rparr>)]
       (battery_manager_ctor 20 10)) = high"
proof -
  have e: "get_battery_state (manager_run 2147483647
       [Tick (Some \<lparr>voltage = Finite (round32 3.07), current = 100, temperature = 60,
                    is_charging = False\<rparr>),
        Event enter_deep_sleep True, Set_low 30, Tick None,
        Tick (Some \<lparr>voltage = NaN, current = 100, temperature = 20, is_charging = False\<rparr>)]
       (battery_manager_ctor 20 10)) = high"
    by code_simp
  from battery_state_never_error
    [of 2147483647
        "[Tick (Some \<lparr>voltage = Finite (round32 3.07), current = 100, temperature = 60,
                    is_charging = False\<rparr>),
        Event enter_deep_sleep True, Set_low 30, Tick None,
        Tick (Some \<lparr>voltage = NaN, current = 100, temperature = 20, is_charging = False\<rparr>)]"
        20 10] e
  show ?thesis by blast
qed


subsection \<open>Thermal guard\<close>

lemma state_events_not_thermal:
  "a \<in> set (case state_change_event st of Some e \<Rightarrow> [Publish e] | None \<Rightarrow> []) \<Longrightarrow>
     a \<noteq> Disable_charging \<and> a \<noteq> Enable_charging
     \<and> a \<noteq> Publish battery_temp_high \<and> a \<noteq> Publish battery_temp_normal"
  by (cases st) auto

lemma update_actions:
  "\<exists>evs. snd (update_battery_state nan_cast (Some s) m)
            = snd (check_temperature (temperature s) (temp_warning_active m)) @ evs
         \<and> Disable_charging \<notin> set evs \<and> Enable_charging \<notin> set evs
         \<and> Publish battery_temp_high \<notin> set evs \<and> Publish battery_temp_normal \<notin> set evs"
proof -
  define new where "new = update_state (is_charging s) (calculate_percentage nan_cast (voltage s))
                (critical_battery_threshold m) (low_battery_threshold m)"
  define evs where "evs = (case state_change_event new of Some e \<Rightarrow> [Publish e] | None \<Rightarrow> [])"
  have no: "Disable_charging \<notin> set evs" "Enable_charging \<notin> set evs"
    "Publish battery_temp_high \<notin> set evs" "Publish battery_temp_normal \<notin> set evs"
    using state_events_not_thermal [of _ new] unfolding evs_def by blast+
  show ?thesis
  proof (cases "current_state m = new")
    case True
    then have "snd (update_battery_state nan_cast (Some s) m)
          = snd (check_temperature (temperature s) (temp_warning_active m)) @ []"
      by (simp add: update_battery_state_def Let_def new_def)
    then show ?thesis by (intro exI [of _ "[]"]) simp
  next
    case False
    then have "snd (update_battery_state nan_cast (Some s) m)
          = snd (check_temperature (temperature s) (temp_warning_active m)) @ evs"
      by (simp add: update_battery_state_def Let_def new_def evs_def)
    with no show ?thesis by blast
  qed
qed

lemma update_warning_flag:
  "temp_warning_active (fst (update_battery_state nan_cast (Some s) m))
     = fst (check_temperature (temperature s) (temp_warning_active m))"
  by (simp add: update_battery_state_def Let_def)

text \<open>
  C5, as the claim states it, fails: on a poll at 60 degrees that trips the guard, the
  high-temperature event is not published before charging is disabled.
\<close>

theorem temp_high_published_first_counterexample:
  "\<not> strictly_before (Publish battery_temp_high) Disable_charging
       (snd (update_battery_state 0
          (Some \<lparr> voltage = Finite (round32 3.7), current = 100, temperature = 60, is_charging = False \<rparr>)
          (battery_manager_ctor 20 10)))"
  by code_simp

text \<open>
  C5, amended. On a poll that trips the thermal guard (temperature above the critical
  threshold, warning not yet active) charging is disabled first and the
  \<open>battery_temp_high\<close> event is published directly after it; neither happens again in
  that poll.
\<close>

theorem charging_disabled_before_temp_high:
  assumes "temperature s > BATTERY_TEMP_CRITICAL" and "\<not> temp_warning_active m"
  shows "strictly_before Disable_charging (Publish battery_temp_high)
           (snd (update_battery_state nan_cast (Some s) m))
         \<and> (\<exists>rest. snd (update_battery_state nan_cast (Some s) m)
                     = Disable_charging # Publish battery_temp_high # rest
                   \<and> Disable_charging \<notin> set rest \<and> Publish battery_temp_high \<notin> set rest)"
proof -
  from update_actions [of nan_cast s m] obtain evs where
    a: "snd (update_battery_state nan_cast (Some s) m)
          = snd (check_temperature (temperature s) (temp_warning_active m)) @ evs"
    and n: "Disable_charging \<notin> set evs" "Publish battery_temp_high \<notin> set evs"
    by blast
  from assms have "snd (check_temperature (temperature s) (temp_warning_active m))
      = [Disable_charging, Publish battery_temp_high]"
    by (simp add: check_temperature_def)
  with a have "snd (update_battery_state nan_cast (Some s) m)
      = Disable_charging # Publish battery_temp_high # evs" by simp
  with n show ?thesis by simp
qed

theorem charging_disabled_before_temp_high_witness:
  "temperature \<lparr> voltage = Finite (round32 3.7), current = 100, temperature = 60, is_charging = False \<rparr>
     > BATTERY_TEMP_CRITICAL
   \<and> \<not> temp_warning_active (battery_manager_ctor 20 10)
   \<and> strictly_before Disable_charging (Publish battery_temp_high)
       (snd (update_battery_state 0
          (Some \<lparr> voltage = Finite (round32 3.7), current = 100, temperature = 60, is_charging = False \<rparr>)
          (battery_manager_ctor 20 10)))"
proof -
  have h1: "temperature \<lparr> voltage = Finite (round32 3.7), current = 100, temperature = 60, is_charging = False \<rparr>
     > BATTERY_TEMP_CRITICAL" by (simp add: BATTERY_TEMP_CRITICAL_def)
  have h2: "\<not> temp_warning_active (battery_manager_ctor 20 10)"
    by (simp add: battery_manager_ctor_def)
  from charging_disabled_before_temp_high [OF h1 h2, of 0] h1 h2 show ?thesis by blast
qed

lemma run_polls_Cons:
  "fst (run_polls nan_cast (s # ss) m) = fst (run_polls nan_cast ss (fst (update_battery_state nan_cast (Some s) m)))"
  "snd (run_polls nan_cast (s # ss) m)
     = snd (update_battery_state nan_cast (Some s) m)
       @ snd (run_polls nan_cast ss (fst (update_battery_state nan_cast (Some s) m)))"
  by (simp_all split: prod.splits)

lemma run_polls_append:
  "fst (run_polls nan_cast (xs @ ys) m) = fst (run_polls nan_cast ys (fst (run_polls nan_cast xs m)))
   \<and> snd (run_polls nan_cast (xs @ ys) m)
       = snd (run_polls nan_cast xs m) @ snd (run_polls nan_cast ys (fst (run_polls nan_cast xs m)))"
  by (induction xs arbitrary: m) (simp_all add: run_polls_Cons del: run_polls.simps(2))

lemma update_count:
  assumes "a \<in> {Disable_charging, Enable_charging, Publish battery_temp_high,
                 Publish battery_temp_normal}"
  shows "count_list (snd (update_battery_state nan_cast (Some s) m)) a
         = count_list (snd (check_temperature (temperature s) (temp_warning_active m))) a"
proof -
  from update_actions [of nan_cast s m] obtain evs where
    a: "snd (update_battery_state nan_cast (Some s) m)
          = snd (check_temperature (temperature s) (temp_warning_active m)) @ evs"
    and n: "Disable_charging \<notin> set evs" "Enable_charging \<notin> set evs"
      "Publish battery_temp_high \<notin> set evs" "Publish battery_temp_normal \<notin> set evs"
    by blast
  from assms n have "count_list evs a = 0" by auto
  with a show ?thesis by simp
qed

lemma hot_phase:
  assumes "temp_warning_active m" and "\<forall>s \<in> set ss. BATTERY_TEMP_WARNING \<le> temperature s"
  shows "temp_warning_active (fst (run_polls nan_cast ss m))
         \<and> count_list (snd (run_polls nan_cast ss m)) (Publish battery_temp_high) = 0
         \<and> count_list (snd (run_polls nan_cast ss m)) (Publish battery_temp_normal) = 0
         \<and> count_list (snd (run_polls nan_cast ss m)) Enable_charging = 0
         \<and> count_list (snd (run_polls nan_cast ss m)) Disable_charging
             = length (filter (\<lambda>s. temperature s > BATTERY_TEMP_CRITICAL) ss)"
  using assms
proof (induction ss arbitrary: m)
  case Nil
  then show ?case by simp
next
  case (Cons s ss)
  let ?m = "fst (update_battery_state nan_cast (Some s) m)"
  from Cons.prems have w: "BATTERY_TEMP_WARNING \<le> temperature s" by simp
  with Cons.prems(1) have act: "temp_warning_active ?m"
    by (simp add: update_warning_flag check_temperature_def)
  from Cons.prems have "\<forall>s \<in> set ss. BATTERY_TEMP_WARNING \<le> temperature s" by simp
  note ih = Cons.IH [OF act this]
  from w Cons.prems(1) have c:
    "count_list (snd (update_battery_state nan_cast (Some s) m)) (Publish battery_temp_high) = 0"
    "count_list (snd (update_battery_state nan_cast (Some s) m)) (Publish battery_temp_normal) = 0"
    "count_list (snd (update_battery_state nan_cast (Some s) m)) Enable_charging = 0"
    "count_list (snd (update_battery_state nan_cast (Some s) m)) Disable_charging
       = (if temperature s > BATTERY_TEMP_CRITICAL then 1 else 0)"
    by (simp_all add: update_count check_temperature_def)
  from ih c show ?case by (simp add: run_polls_Cons del: run_polls.simps(2))
qed

lemma cool_phase:
  assumes "\<not> temp_warning_active m" and "\<forall>s \<in> set ts. temperature s \<le> BATTERY_TEMP_CRITICAL"
  shows "\<not> temp_warning_active (fst (run_polls nan_cast ts m))
         \<and> count_list (snd (run_polls nan_cast ts m)) (Publish battery_temp_high) = 0
         \<and> count_list (snd (run_polls nan_cast ts m)) (Publish battery_temp_normal) = 0
         \<and> count_list (snd (run_polls nan_cast ts m)) Enable_charging = 0
         \<and> count_list (snd (run_polls nan_cast ts m)) Disable_charging = 0"
  using assms
proof (induction ts arbitrary: m)
  case Nil
  then show ?case by simp
next
  case (Cons s ts)
  let ?m = "fst (update_battery_state nan_cast (Some s) m)"
  from Cons.prems have w: "temperature s \<le> BATTERY_TEMP_CRITICAL" by simp
  with Cons.prems(1) have act: "\<not> temp_warning_active ?m"
    by (simp add: update_warning_flag check_temperature_def)
  from Cons.prems have "\<forall>s \<in> set ts. temperature s \<le> BATTERY_TEMP_CRITICAL" by simp
  note ih = Cons.IH [OF act this]
  from w Cons.prems(1) have c:
    "count_list (snd (update_battery_state nan_cast (Some s) m)) (Publish battery_temp_high) = 0"
    "count_list (snd (update_battery_state nan_cast (Some s) m)) (Publish battery_temp_normal) = 0"
    "count_list (snd (update_battery_state nan_cast (Some s) m)) Enable_charging = 0"
    "count_list (snd (update_battery_state nan_cast (Some s) m)) Disable_charging = 0"
    by (simp_all add: update_count check_temperature_def)
  from ih c show ?case by (simp add: run_polls_Cons del: run_polls.simps(2))
qed

text \<open>
  C2, as the claim states it, fails: two successive polls at 60 degrees call
  \<open>disable_charging\<close> twice.
\<close>

theorem disable_repeated_counterexample:
  "count_list (snd (run_polls 0
      [\<lparr> voltage = Finite (round32 3.7), current = 100, temperature = 60, is_charging = False \<rparr>,
       \<lparr> voltage = Finite (round32 3.7), current = 100, temperature = 60, is_charging = False \<rparr>]
      (battery_manager_ctor 20 10))) Disable_charging = 2"
  by code_simp

text \<open>
  C2, amended. Take one excursion and what follows it: a poll above the critical
  threshold with the warning not active, then polls at or above the warning threshold,
  then a poll below it, then any polls that do not rise above the critical threshold
  again. Over all of them the \<open>battery_temp_high\<close> event is published exactly once, on
  the first poll; \<open>disable_charging\<close> is called on the first poll and on every later
  poll of the excursion that is above the critical threshold; \<open>enable_charging\<close> is
  called and \<open>battery_temp_normal\<close> is published exactly once each, on the first
  poll below the warning threshold, on none before it and on none after it.
\<close>

theorem thermal_hysteresis:
  assumes "\<not> temp_warning_active m"
    and "temperature s1 > BATTERY_TEMP_CRITICAL"
    and "\<forall>s \<in> set ss. BATTERY_TEMP_WARNING \<le> temperature s"
    and "temperature s_end < BATTERY_TEMP_WARNING"
    and "\<forall>s \<in> set ts. temperature s \<le> BATTERY_TEMP_CRITICAL"
  shows "count_list (snd (run_polls nan_cast (s1 # ss @ s_end # ts) m))
           (Publish battery_temp_high) = 1
       \<and> count_list (snd (run_polls nan_cast (s1 # ss @ s_end # ts) m))
           (Publish battery_temp_normal) = 1
       \<and> count_list (snd (run_polls nan_cast (s1 # ss @ s_end # ts) m)) Enable_charging = 1
       \<and> count_list (snd (run_polls nan_cast (s1 # ss @ s_end # ts) m)) Disable_charging
           = 1 + length (filter (\<lambda>s. temperature s > BATTERY_TEMP_CRITICAL) ss)
       \<and> Publish battery_temp_high \<in> set (snd (update_battery_state nan_cast (Some s1) m))
       \<and> Enable_charging \<notin> set (snd (run_polls nan_cast (s1 # ss) m))
       \<and> Publish battery_temp_normal \<notin> set (snd (run_polls nan_cast (s1 # ss) m))
       \<and> Enable_charging \<in> set (snd (update_battery_state nan_cast (Some s_end)
                                      (fst (run_polls nan_cast (s1 # ss) m))))
       \<and> Publish battery_temp_normal \<in> set (snd (update_battery_state nan_cast (Some s_end)
                                      (fst (run_polls nan_cast (s1 # ss) m))))
       \<and> \<not> temp_warning_active (fst (run_polls nan_cast (s1 # ss @ s_end # ts) m))"
proof -
  let ?m1 = "fst (update_battery_state nan_cast (Some s1) m)"
  let ?m2 = "fst (run_polls nan_cast ss ?m1)"
  let ?m3 = "fst (update_battery_state nan_cast (Some s_end) ?m2)"
  from assms(1,2) have act: "temp_warning_active ?m1"
    by (simp add: update_warning_flag check_temperature_def)
  from assms(1,2) have c1:
    "count_list (snd (update_battery_state nan_cast (Some s1) m)) (Publish battery_temp_high) = 1"
    "count_list (snd (update_battery_state nan_cast (Some s1) m)) (Publish battery_temp_normal) = 0"
    "count_list (snd (update_battery_state nan_cast (Some s1) m)) Enable_charging = 0"
    "count_list (snd (update_battery_state nan_cast (Some s1) m)) Disable_charging = 1"
    by (simp_all add: update_count check_temperature_def)
  note hot = hot_phase [OF act assms(3), of nan_cast]
  from assms(4) have cold: "\<not> temperature s_end > BATTERY_TEMP_CRITICAL"
    by (simp add: BATTERY_TEMP_CRITICAL_def BATTERY_TEMP_WARNING_def)
  from hot have act2: "temp_warning_active ?m2" by simp
  with assms(4) cold have c3:
    "count_list (snd (update_battery_state nan_cast (Some s_end) ?m2)) (Publish battery_temp_high) = 0"
    "count_list (snd (update_battery_state nan_cast (Some s_end) ?m2)) (Publish battery_temp_normal) = 1"
    "count_list (snd (update_battery_state nan_cast (Some s_end) ?m2)) Enable_charging = 1"
    "count_list (snd (update_battery_state nan_cast (Some s_end) ?m2)) Disable_charging = 0"
    by (simp_all add: update_count check_temperature_def)
  from act2 assms(4) cold have off: "\<not> temp_warning_active ?m3"
    by (simp add: update_warning_flag check_temperature_def)
  note cool = cool_phase [OF off assms(5), of nan_cast]
  have split:
    "snd (run_polls nan_cast (s1 # ss @ s_end # ts) m)
       = snd (update_battery_state nan_cast (Some s1) m) @ snd (run_polls nan_cast ss ?m1)
         @ snd (update_battery_state nan_cast (Some s_end) ?m2) @ snd (run_polls nan_cast ts ?m3)"
    "fst (run_polls nan_cast (s1 # ss @ s_end # ts) m) = fst (run_polls nan_cast ts ?m3)"
    "snd (run_polls nan_cast (s1 # ss) m)
       = snd (update_battery_state nan_cast (Some s1) m) @ snd (run_polls nan_cast ss ?m1)"
    "fst (run_polls nan_cast (s1 # ss) m) = ?m2"
    by (simp_all add: run_polls_Cons run_polls_append del: run_polls.simps(2))
  from c1(1) have hi:
    "Publish battery_temp_high \<in> set (snd (update_battery_state nan_cast (Some s1) m))"
    by (metis count_list_0_iff zero_neq_one)
  from c3(2,3) have reenabled:
    "Enable_charging \<in> set (snd (update_battery_state nan_cast (Some s_end) ?m2))"
    "Publish battery_temp_normal \<in> set (snd (update_battery_state nan_cast (Some s_end) ?m2))"
    by (metis count_list_0_iff zero_neq_one)+
  from c1 hot have none:
    "Enable_charging \<notin> set (snd (run_polls nan_cast (s1 # ss) m))"
    "Publish battery_temp_normal \<notin> set (snd (run_polls nan_cast (s1 # ss) m))"
    unfolding split(3) by (simp_all add: count_list_0_iff [symmetric])
  show ?thesis unfolding split(1,2,4) using c1 hot c3 cool hi reenabled none
    by (simp del: run_polls.simps)
qed

theorem thermal_hysteresis_witness:
  "count_list (snd (run_polls 0
      [\<lparr> voltage = Finite (round32 3.7), current = 100, temperature = 60, is_charging = False \<rparr>,
       \<lparr> voltage = Finite (round32 3.7), current = 100, temperature = 58, is_charging = False \<rparr>,
       \<lparr> voltage = Finite (round32 3.7), current = 100, temperature = 50, is_charging = False \<rparr>,
       \<lparr> voltage = Finite (round32 3.7), current = 100, temperature = 40, is_charging = False \<rparr>,
       \<lparr> voltage = Finite (round32 3.7), current = 100, temperature = 40, is_charging = False \<rparr>,
       \<lparr> voltage = Finite (round32 3.7), current = 100, temperature = 30, is_charging = False \<rparr>]
      (battery_manager_ctor 20 10))) (Publish battery_temp_high) = 1
   \<and> count_list (snd (run_polls 0
      [\<lparr> voltage = Finite (round32 3.7), current = 100, temperature = 60, is_charging = False \<rparr>,
       \<lparr> voltage = Finite (round32 3.7), current = 100, temperature = 58, is_charging = False \<rparr>,
       \<lparr> voltage = Finite (round32 3.7), current = 100, temperature = 50, is_charging = False \<rparr>,
       \<lparr> voltage = Finite (round32 3.7), current = 100, temperature = 40, is_charging = False \<rparr>,
       \<lparr> voltage = Finite (round32 3.7), current = 100, temperature = 40, is_charging = False \<rparr>,
       \<lparr> voltage = Finite (round32 3.7), current = 100, temperature = 30, is_charging = False \<rparr>]
      (battery_manager_ctor 20 10))) (Publish battery_temp_normal) = 1
   \<and> count_list (snd (run_polls 0
      [\<lparr> voltage = Finite (round32 3.7), current = 100, temperature = 60, is_charging = False \<rparr>,
       \<lparr> voltage = Finite (round32 3.7), current = 100, temperature = 58, is_charging = False \<rparr>,
       \<lparr> voltage = Finite (round32 3.7), current = 100, temperature = 50, is_charging = False \<rparr>,
       \<lparr> voltage = Finite (round32 3.7), current = 100, temperature = 40, is_charging = False \<rparr>,
       \<lparr> voltage = Finite (round32 3.7), current = 100, temperature = 40, is_charging = False \<rparr>,
       \<lparr> voltage = Finite (round32 3.7), current = 100, temperature = 30, is_charging = False \<rparr>]
      (battery_manager_ctor 20 10))) Disable_charging = 2"
proof -
  let ?s1 = "\<lparr> voltage = Finite (round32 3.7), current = 100, temperature = 60, is_charging = False \<rparr>"
  let ?ss = "[\<lparr> voltage = Finite (round32 3.7), current = 100, temperature = 58, is_charging = False \<rparr>,
       \<lparr> voltage = Finite (round32 3.7), current = 100, temperature = 50, is_charging = False \<rparr>]"
  let ?e = "\<lparr> voltage = Finite (round32 3.7), current = 100, temperature = 40, is_charging = False \<rparr>"
  let ?ts = "[\<lparr> voltage = Finite (round32 3.7), current = 100, temperature = 40, is_charging = False \<rparr>,
       \<lparr> voltage = Finite (round32 3.7), current = 100, temperature = 30, is_charging = False \<rparr>]"
  have h1: "\<not> temp_warning_active (battery_manager_ctor 20 10)"
    by (simp add: battery_manager_ctor_def)
  have h2: "temperature ?s1 > BATTERY_TEMP_CRITICAL" by (simp add: BATTERY_TEMP_CRITICAL_def)
  have h3: "\<forall>s \<in> set ?ss. BATTERY_TEMP_WARNING \<le> temperature s"
    by (simp add: BATTERY_TEMP_WARNING_def)
  have h4: "temperature ?e < BATTERY_TEMP_WARNING" by (simp add: BATTERY_TEMP_WARNING_def)
  have h5: "\<forall>s \<in> set ?ts. temperature s \<le> BATTERY_TEMP_CRITICAL"
    by (simp add: BATTERY_TEMP_CRITICAL_def)
  from thermal_hysteresis [OF h1 h2 h3 h4 h5, of 0] show ?thesis
    by (simp add: BATTERY_TEMP_CRITICAL_def)
qed

end
